theory Spec2Isabelle
  imports Main
begin

section \<open>Python strings\<close>

text \<open>
  A Python \<open>str\<close> is a sequence of Unicode code points, and \<open>len\<close> counts code points.
  A code point is modelled as a natural number and a string as a list of them.
  \<open>ustr\<close> turns an ASCII literal into such a list.
\<close>

type_synonym uchar = nat
type_synonym ustring = "uchar list"

definition ustr :: "string \<Rightarrow> ustring" where
  "ustr s = map of_char s"

text \<open>
  \<open>str.isspace\<close>, \<open>str.strip\<close> and the regular expression class \<open>\s\<close> (for a \<open>str\<close>
  pattern) all use CPython's table of Unicode whitespace:
  U+0009..U+000D, U+001C..U+0020, U+0085, U+00A0, U+1680, U+2000..U+200A, U+2028, U+2029,
  U+202F, U+205F, U+3000.
\<close>

definition isspace :: "uchar \<Rightarrow> bool" where
  "isspace c \<longleftrightarrow>
     (9 \<le> c \<and> c \<le> 13) \<or> (28 \<le> c \<and> c \<le> 32) \<or> c = 133 \<or> c = 160 \<or> c = 5760 \<or>
     (8192 \<le> c \<and> c \<le> 8202) \<or> c = 8232 \<or> c = 8233 \<or> c = 8239 \<or> c = 8287 \<or> c = 12288"

definition lstrip :: "ustring \<Rightarrow> ustring" where
  "lstrip s = dropWhile isspace s"

definition rstrip :: "ustring \<Rightarrow> ustring" where
  "rstrip s = rev (dropWhile isspace (rev s))"

definition strip :: "ustring \<Rightarrow> ustring" where
  "strip s = rstrip (lstrip s)"

text \<open>
  \<open>s.replace(old, new)\<close>: the non-overlapping occurrences of \<open>old\<close>, found from the left,
  are replaced. For an empty \<open>old\<close> Python puts \<open>new\<close> before every character and at the end.
\<close>

function replace :: "ustring \<Rightarrow> ustring \<Rightarrow> ustring \<Rightarrow> ustring" where
  "replace [] new s = new @ concat (map (\<lambda>c. c # new) s)"
| "replace (v # va) new [] = []"
| "replace (v # va) new (c # cs) =
     (if take (length (v # va)) (c # cs) = v # va
      then new @ replace (v # va) new (drop (length (v # va)) (c # cs))
      else c # replace (v # va) new cs)"
  by pat_completeness auto
termination
  by (relation "measure (\<lambda>(old, new, s). length s)") auto

text \<open>\<open>s.split(sep)\<close> for a one-character separator: every separator cuts, empty pieces are kept.\<close>

fun split_on :: "uchar \<Rightarrow> ustring \<Rightarrow> ustring list" where
  "split_on sep [] = [[]]"
| "split_on sep (c # cs) =
     (if c = sep then [] # split_on sep cs
      else (case split_on sep cs of [] \<Rightarrow> [[c]] | p # ps \<Rightarrow> (c # p) # ps))"

text \<open>\<open>sep.join(xs)\<close>.\<close>

fun join :: "ustring \<Rightarrow> ustring list \<Rightarrow> ustring" where
  "join sep [] = []"
| "join sep [x] = x"
| "join sep (x # y # ys) = x @ sep @ join sep (y # ys)"

text \<open>
  \<open>str.lower\<close>: CPython lower-cases an all-ASCII string character by character
  (\<open>A\<close>..\<open>Z\<close> to \<open>a\<close>..\<open>z\<close>); any other string goes through the Unicode case mapping, which
  is a table of the interpreter (with context-dependent entries) and is taken as the
  parameter \<open>L\<close>.
\<close>

definition ascii_lower :: "uchar \<Rightarrow> uchar" where
  "ascii_lower c = (if 65 \<le> c \<and> c \<le> 90 then c + 32 else c)"

definition lower :: "(ustring \<Rightarrow> ustring) \<Rightarrow> ustring \<Rightarrow> ustring" where
  "lower L s = (if list_all (\<lambda>c. c < 128) s then map ascii_lower s else L s)"

section \<open>sanitize_filename\<close>

text \<open>The characters of the first pattern, \<open>< > : " / \ | ? *\<close>, as code points.\<close>

definition reserved_chars :: ustring where
  "reserved_chars = [60, 62, 58, 34, 47, 92, 124, 63, 42]"

text \<open>The literal characters of the second pattern's class, besides \<open>\w\<close> and \<open>\s\<close>.\<close>

definition allowed_punct :: ustring where
  "allowed_punct = ustr ''-_.,()[]{}#@&+=!~''"

text \<open>
  \<open>\w\<close> on a \<open>str\<close> pattern: the underscore and every alphanumeric character. On ASCII
  these are the digits and letters; beyond ASCII the Unicode database decides, and its
  table is the parameter \<open>W\<close>.
\<close>

definition ascii_alnum :: "uchar \<Rightarrow> bool" where
  "ascii_alnum c \<longleftrightarrow> (48 \<le> c \<and> c \<le> 57) \<or> (65 \<le> c \<and> c \<le> 90) \<or> (97 \<le> c \<and> c \<le> 122)"

definition is_word :: "(uchar \<Rightarrow> bool) \<Rightarrow> uchar \<Rightarrow> bool" where
  "is_word W c \<longleftrightarrow> c = 95 \<or> (if c < 128 then ascii_alnum c else W c)"

text \<open>\<open>re.sub(r'\s+', ' ', s)\<close>: every maximal run of whitespace becomes one space.\<close>

function collapse_ws :: "ustring \<Rightarrow> ustring" where
  "collapse_ws [] = []"
| "collapse_ws (c # cs) =
     (if isspace c then 32 # collapse_ws (dropWhile isspace cs) else c # collapse_ws cs)"
  by pat_completeness auto
termination
  by (relation "measure length") (auto simp: length_dropWhile_le less_Suc_eq_le)

definition sanitize_filename :: "(uchar \<Rightarrow> bool) \<Rightarrow> ustring \<Rightarrow> ustring" where
  "sanitize_filename W title =
     (if title = [] \<or> strip title = [] then ustr ''Untitled''
      else
        let filename = filter (\<lambda>c. c \<notin> set reserved_chars) title;
            filename = filter (\<lambda>c. is_word W c \<or> isspace c \<or> c \<in> set allowed_punct) filename;
            filename = strip (collapse_ws filename);
            filename = (if length filename > 250 then rstrip (take 250 filename) else filename)
        in if filename \<noteq> [] then filename else ustr ''Untitled'')"


section \<open>extract_domain\<close>

text \<open>
  \<open>urlparse(url).netloc\<close> is computed by the standard library; it is the parameter
  \<open>netloc_of\<close>, with \<open>None\<close> for a call that raises (\<open>ValueError\<close>). The bare \<open>except\<close>
  of the function turns every exception into the empty string.
\<close>

definition extract_domain :: "(ustring \<Rightarrow> ustring option) \<Rightarrow> ustring \<Rightarrow> ustring" where
  "extract_domain netloc_of url =
     (if url = [] \<or> strip url = [] then []
      else (case netloc_of url of
              None \<Rightarrow> []
            | Some domain \<Rightarrow> if domain \<noteq> [] then replace (ustr ''www.'') [] domain else []))"

section \<open>format_tags\<close>

text \<open>The list comprehension over \<open>tags_str.split(',')\<close>.\<close>

definition existing_tags :: "(ustring \<Rightarrow> ustring) \<Rightarrow> ustring \<Rightarrow> ustring list" where
  "existing_tags L tags_str =
     map (\<lambda>tag. replace (ustr '' '') (ustr ''-'') (lower L (strip tag)))
       (filter (\<lambda>tag. strip tag \<noteq> []) (split_on 44 tags_str))"

text \<open>The loop that copies \<open>tags\<close> into \<open>unique_tags\<close>, skipping what is already there.\<close>

fun unique_loop :: "ustring list \<Rightarrow> ustring list \<Rightarrow> ustring list" where
  "unique_loop [] unique_tags = unique_tags"
| "unique_loop (tag # tags) unique_tags =
     unique_loop tags (if tag \<in> set unique_tags then unique_tags else unique_tags @ [tag])"

definition format_tags :: "(ustring \<Rightarrow> ustring) \<Rightarrow> ustring \<Rightarrow> ustring \<Rightarrow> ustring list" where
  "format_tags L tags_str folder =
     (let tags = [ustr ''clippings''];
          tags = (if folder \<noteq> [] \<and> lower L folder \<noteq> ustr ''unsorted''
                  then tags @ [replace (ustr '' '') (ustr ''-'') (lower L folder)]
                  else tags);
          tags = (if tags_str \<noteq> [] \<and> strip tags_str \<noteq> []
                  then tags @ existing_tags L tags_str
                  else tags)
      in unique_loop tags [])"

section \<open>format_date\<close>

text \<open>
  \<open>datetime.fromisoformat\<close> is the standard library's parser, whose accepted formats
  depend on the interpreter's version; it is the parameter \<open>fromisoformat\<close>, giving the
  year, month and day of the parsed value, or \<open>None\<close> when it raises. A \<open>datetime\<close> has
  a year in 1..9999, a month in 1..12 and a day in 1..31. \<open>strftime('%Y-%m-%d')\<close> hands
  the format to the C library: month and day are written with two digits, and a year
  from 1000 on with its four digits. For a year below 1000 the text of \<open>%Y\<close> depends on
  the C library (glibc writes the number without leading zeros, others pad it to four
  digits); it is the parameter \<open>year_text\<close>.
\<close>

definition digits2 :: "nat \<Rightarrow> ustring" where
  "digits2 n = [48 + n div 10 mod 10, 48 + n mod 10]"

definition digits4 :: "nat \<Rightarrow> ustring" where
  "digits4 n = [48 + n div 1000 mod 10, 48 + n div 100 mod 10, 48 + n div 10 mod 10, 48 + n mod 10]"

definition strftime_ymd :: "(nat \<Rightarrow> ustring) \<Rightarrow> nat \<times> nat \<times> nat \<Rightarrow> ustring" where
  "strftime_ymd year_text dt =
     (case dt of (y, m, d) \<Rightarrow>
        (if 1000 \<le> y then digits4 y else year_text y)
        @ ustr ''-'' @ digits2 m @ ustr ''-'' @ digits2 d)"

definition format_date ::
  "(ustring \<Rightarrow> (nat \<times> nat \<times> nat) option) \<Rightarrow> (nat \<Rightarrow> ustring) \<Rightarrow> ustring \<Rightarrow> ustring" where
  "format_date fromisoformat year_text date_str =
     (if date_str = [] \<or> strip date_str = [] then []
      else (case fromisoformat (replace (ustr ''Z'') (ustr ''+00:00'') date_str) of
              None \<Rightarrow> []
            | Some dt \<Rightarrow> strftime_ymd year_text dt))"

section \<open>create_markdown_content\<close>

text \<open>
  A row of \<open>csv.DictReader\<close> maps column names to strings; a row with fewer cells than
  the header has \<open>None\<close> for the missing columns, and \<open>None.strip()\<close> raises
  \<open>AttributeError\<close>.
\<close>

datatype pyval = Str ustring | PyNone

type_synonym row = "ustring \<rightharpoonup> pyval"

text \<open>
  The exceptions that occur: \<open>CsvError\<close> stands for what reading the file can raise
  (\<open>csv.Error\<close>, a decoding error), \<open>UnicodeEncodeError\<close> for what \<open>print\<close> raises when
  the console cannot take the text.
\<close>

datatype exn = AttributeError | OSError | CsvError | FileNotFoundError | UnicodeEncodeError

text \<open>The interpreter's tables and the library parsers that the functions above take.\<close>

record pylib =
  isalnum_tbl :: "uchar \<Rightarrow> bool"
  lower_tbl :: "ustring \<Rightarrow> ustring"
  netloc_of :: "ustring \<Rightarrow> ustring option"
  fromisoformat :: "ustring \<Rightarrow> (nat \<times> nat \<times> nat) option"
  year_text :: "nat \<Rightarrow> ustring"

definition field_names :: "string list" where
  "field_names = [''title'', ''url'', ''excerpt'', ''note'', ''tags'', ''folder'', ''created'',
     ''cover'', ''highlights'']"

text \<open>\<open>row.get(k, '').strip()\<close> where the value is a string (or the key is absent).\<close>

definition field :: "row \<Rightarrow> string \<Rightarrow> ustring" where
  "field r k = (case r (ustr k) of Some (Str s) \<Rightarrow> strip s | _ \<Rightarrow> strip [])"

definition yaml_lines :: "pylib \<Rightarrow> row \<Rightarrow> ustring list" where
  "yaml_lines lib r =
     (let title = field r ''title'';
          url = field r ''url'';
          excerpt = field r ''excerpt'';
          tags_str = field r ''tags'';
          folder = field r ''folder'';
          created = field r ''created'';
          domain = extract_domain (netloc_of lib) url;
          author = (if domain \<noteq> [] then ustr ''[['' @ domain @ ustr '']]'' else []);
          formatted_date = format_date (fromisoformat lib) (year_text lib) created;
          formatted_tags = format_tags (lower_tbl lib) tags_str folder
      in [ustr ''---'']
         @ (if author \<noteq> [] then [ustr ''author:'', ustr ''- '' @ [39] @ author @ [39]] else [])
         @ (if formatted_date \<noteq> [] then [ustr ''created: '' @ [39] @ formatted_date @ [39]] else [])
         @ (if excerpt \<noteq> []
            then [ustr ''description: '' @ replace [10] (ustr '' '') (replace [34] [92, 34] excerpt)]
            else [])
         @ [ustr ''published: '' @ [39, 39]]
         @ (if url \<noteq> [] then [ustr ''source: '' @ url] else [])
         @ [ustr ''tags:'']
         @ map (\<lambda>tag. ustr ''- '' @ tag) formatted_tags
         @ [ustr ''title: '' @ title, ustr ''---''])"

text \<open>The lines appended to the copy of \<open>yaml_lines\<close>: the body sections.\<close>

definition section_lines :: "row \<Rightarrow> ustring list" where
  "section_lines r =
     (let url = field r ''url'';
          excerpt = field r ''excerpt'';
          note = field r ''note'';
          highlights = field r ''highlights''
      in (if excerpt \<noteq> [] \<or> note \<noteq> []
          then [[], ustr ''## Summary'', []]
               @ (if excerpt \<noteq> [] then [excerpt] else [])
               @ (if note \<noteq> [] then (if excerpt \<noteq> [] then [[]] else []) @ [note] else [])
          else [])
         @ (if highlights \<noteq> [] \<and> strip highlights \<noteq> []
            then [[], ustr ''## Highlights'', [], highlights]
            else [])
         @ (if url \<noteq> []
            then [[], ustr ''## Source'', [], ustr ''[View Original]('' @ url @ ustr '')'']
            else []))"

definition content_lines :: "pylib \<Rightarrow> row \<Rightarrow> ustring list" where
  "content_lines lib r = yaml_lines lib r @ section_lines r"

text \<open>
  The nine \<open>row.get(...).strip()\<close> calls come first: the function raises
  \<open>AttributeError\<close> exactly when one of the nine values is \<open>None\<close>.
\<close>

definition create_markdown_content :: "pylib \<Rightarrow> row \<Rightarrow> exn + ustring" where
  "create_markdown_content lib r =
     (if list_ex (\<lambda>k. r (ustr k) = Some PyNone) field_names then Inl AttributeError
      else Inr (join [10] (content_lines lib r)))"

section \<open>convert_csv_to_markdown\<close>

text \<open>
  What the function prints. The per-row handler prints \<open>row.get('title', 'Unknown')\<close>
  and the exception; the two outer handlers print that the file was not found, or the
  exception; the summary prints the two counters and the first ten file names.
\<close>

datatype message =
    MsgProcessing nat
  | MsgRowError pyval exn
  | MsgNotFound
  | MsgReadError exn
  | MsgSummary nat nat "ustring list"

text \<open>
  What the function sees of its host: whether \<open>Path(output_dir).mkdir\<close> succeeds,
  whether opening and writing a given path succeeds, and whether \<open>print\<close> succeeds on a
  given message (it raises when the console's encoding cannot take the text, or when
  the stream is closed). \<open>os.path.join\<close> is the POSIX one.
\<close>

record host =
  mkdir_ok :: "ustring \<Rightarrow> bool"
  writable :: "ustring \<Rightarrow> bool"
  can_print :: "message \<Rightarrow> bool"

definition path_join :: "ustring \<Rightarrow> ustring \<Rightarrow> ustring" where
  "path_join a b =
     (if b \<noteq> [] \<and> hd b = 47 then b
      else if a = [] \<or> last a = 47 then a @ b
      else a @ [47] @ b)"

text \<open>
  The input file as the function meets it: either opening it, reading the sample or
  sniffing the delimiter raises, or a \<open>DictReader\<close> over it yields rows and then ends
  or raises (a decoding or CSV error further down the file). The file is read twice,
  first to count the rows, and both passes meet the same contents.
\<close>

datatype csv_source = CannotOpen exn | Reader "row list" "exn option"

text \<open>The local variables of the function, and the files under the output directory.\<close>

record locals =
  successful_conversions :: nat
  failed_conversions :: nat
  created_files :: "ustring list"
  files :: "ustring \<rightharpoonup> ustring"

text \<open>
  The handler \<open>except Exception as e\<close> of one row: it prints first and counts after.
  It sits inside the outer \<open>try\<close>, so when its \<open>print\<close> raises, the exception leaves the
  loop (\<open>Inl\<close>) with the counters as they were.
\<close>

definition row_failed :: "host \<Rightarrow> row \<Rightarrow> exn \<Rightarrow> locals \<Rightarrow> exn + locals" where
  "row_failed h r e st =
     (if can_print h (MsgRowError
            (case r (ustr ''title'') of None \<Rightarrow> Str (ustr ''Unknown'') | Some v \<Rightarrow> v) e)
      then Inr (st\<lparr>failed_conversions := failed_conversions st + 1\<rparr>)
      else Inl UnicodeEncodeError)"

text \<open>One iteration of \<open>for row in reader\<close>, with its \<open>try\<close>/\<open>except Exception\<close>.\<close>

definition convert_row ::
  "pylib \<Rightarrow> host \<Rightarrow> ustring \<Rightarrow> row \<Rightarrow> locals \<Rightarrow> exn + locals" where
  "convert_row lib h output_dir r st =
     (case r (ustr ''title'') of
        Some PyNone \<Rightarrow> row_failed h r AttributeError st
      | _ \<Rightarrow>
        (let title = field r ''title'';
             title = (if title = [] then ustr ''Untitled'' else title);
             filename = sanitize_filename (isalnum_tbl lib) title @ ustr ''.md'';
             filepath = path_join output_dir filename
         in (case create_markdown_content lib r of
               Inl e \<Rightarrow> row_failed h r e st
             | Inr markdown_content \<Rightarrow>
                 if writable h filepath
                 then Inr (st\<lparr>files := (files st)(filepath \<mapsto> markdown_content),
                         successful_conversions := successful_conversions st + 1,
                         created_files := created_files st @ [filename]\<rparr>)
                 else row_failed h r OSError st)))"

text \<open>The loop: the local variables when it ends, and the exception that ended it, if any.\<close>

fun convert_rows ::
  "pylib \<Rightarrow> host \<Rightarrow> ustring \<Rightarrow> row list \<Rightarrow> locals \<Rightarrow> locals \<times> exn option" where
  "convert_rows lib h output_dir [] st = (st, None)"
| "convert_rows lib h output_dir (r # rs) st =
     (case convert_row lib h output_dir r st of
        Inl e \<Rightarrow> (st, Some e)
      | Inr st' \<Rightarrow> convert_rows lib h output_dir rs st')"

text \<open>
  What a call leaves behind: the returned pair, the local variables at the
  \<open>return\<close>, and whether one of the two outer \<open>except\<close> branches (which print the
  batch-level error) was taken.
\<close>

record outcome =
  ret :: "nat \<times> nat"
  at_return :: locals
  aborted :: bool

text \<open>
  The two outer handlers, \<open>except FileNotFoundError\<close> and \<open>except Exception\<close>: each
  prints and returns \<open>0, 1\<close>. When that \<open>print\<close> raises, the function raises.
\<close>

definition batch_failed :: "host \<Rightarrow> exn \<Rightarrow> locals \<Rightarrow> exn + outcome" where
  "batch_failed h e st =
     (if can_print h (if e = FileNotFoundError then MsgNotFound else MsgReadError e)
      then Inr \<lparr>ret = (0, 1), at_return = st, aborted = True\<rparr>
      else Inl UnicodeEncodeError)"

text \<open>
  \<open>mkdir\<close> is called before the \<open>try\<close>: when it raises, so does the function. Inside the
  \<open>try\<close> are the opening of the file, the counting pass over the reader, the message
  with the number of rows, and the loop. The summary is printed after the \<open>try\<close>.
\<close>

definition convert_csv_to_markdown ::
  "pylib \<Rightarrow> host \<Rightarrow> csv_source \<Rightarrow> ustring \<Rightarrow> (ustring \<rightharpoonup> ustring) \<Rightarrow> exn + outcome" where
  "convert_csv_to_markdown lib h csv_file output_dir fs =
     (if \<not> mkdir_ok h output_dir then Inl OSError
      else
        (let st = \<lparr>successful_conversions = 0, failed_conversions = 0, created_files = [],
                   files = fs\<rparr>
         in (case csv_file of
               CannotOpen e \<Rightarrow> batch_failed h e st
             | Reader rows (Some e) \<Rightarrow> batch_failed h e st
             | Reader rows None \<Rightarrow>
                 if \<not> can_print h (MsgProcessing (length rows))
                 then batch_failed h UnicodeEncodeError st
                 else
                   (case convert_rows lib h output_dir rows st of
                      (st', Some e) \<Rightarrow> batch_failed h e st'
                    | (st', None) \<Rightarrow>
                        if can_print h (MsgSummary (successful_conversions st')
                              (failed_conversions st') (take 10 (created_files st')))
                        then Inr \<lparr>ret = (successful_conversions st', failed_conversions st'),
                                at_return = st', aborted = False\<rparr>
                        else Inl UnicodeEncodeError))))"

section \<open>Instances for examples\<close>

text \<open>
  The lemmas below hold for every table and parser. Where an example needs concrete
  ones, these are used. \<open>urlsplit_netloc\<close> follows \<open>urllib.parse.urlsplit\<close> of
  CPython 3.12 on a URL of ASCII characters: leading control characters and spaces are
  stripped, tabs and line breaks removed; a leading scheme (a letter, then letters,
  digits, \<open>+\<close>, \<open>-\<close>, \<open>.\<close>, up to the first colon) is cut off; if \<open>//\<close> follows, the netloc
  runs up to the next \<open>/\<close>, \<open>?\<close> or \<open>#\<close>; one square bracket without the other raises.
  For a netloc with both brackets the library goes on to validate the address between
  them, which is not reproduced: the instance is meant for URLs without brackets.
\<close>

definition ascii_alpha :: "uchar \<Rightarrow> bool" where
  "ascii_alpha c \<longleftrightarrow> (65 \<le> c \<and> c \<le> 90) \<or> (97 \<le> c \<and> c \<le> 122)"

definition scheme_char :: "uchar \<Rightarrow> bool" where
  "scheme_char c \<longleftrightarrow> ascii_alnum c \<or> c = 43 \<or> c = 45 \<or> c = 46"

definition urlsplit_netloc :: "ustring \<Rightarrow> ustring option" where
  "urlsplit_netloc url0 =
     (let url1 = filter (\<lambda>c. c \<noteq> 9 \<and> c \<noteq> 10 \<and> c \<noteq> 13) (dropWhile (\<lambda>c. c \<le> 32) url0);
          i = length (takeWhile (\<lambda>c. c \<noteq> 58) url1);
          url = (if i < length url1 \<and> 0 < i \<and> ascii_alpha (hd url1) \<and> list_all scheme_char (take i url1)
                 then drop (i + 1) url1 else url1)
      in if take 2 url = ustr ''//''
         then (let netloc = takeWhile (\<lambda>c. c \<noteq> 47 \<and> c \<noteq> 63 \<and> c \<noteq> 35) (drop 2 url)
               in if (91 \<in> set netloc) = (93 \<in> set netloc) then Some netloc else None)
         else Some [])"

text \<open>
  \<open>fromisoformat_basic\<close> parses \<open>YYYY-MM-DD\<close>, optionally followed by any one
  character and \<open>HH:MM:SS\<close>, then optionally a fraction of three or six digits, then
  optionally an offset \<open>+HH:MM\<close> or \<open>-HH:MM\<close>. Every version of
  \<open>datetime.fromisoformat\<close> accepts these forms; the library accepts further ones
  (fewer time fields, seconds in the offset, and more from 3.11 on), which the instance
  rejects.
\<close>

definition is_digit :: "uchar \<Rightarrow> bool" where
  "is_digit c \<longleftrightarrow> 48 \<le> c \<and> c \<le> 57"

definition number :: "ustring \<Rightarrow> nat" where
  "number s = foldl (\<lambda>n c. 10 * n + (c - 48)) 0 s"

definition days_in_month :: "nat \<Rightarrow> nat \<Rightarrow> nat" where
  "days_in_month y m =
     (if m = 2 then (if y mod 4 = 0 \<and> (y mod 100 \<noteq> 0 \<or> y mod 400 = 0) then 29 else 28)
      else if m = 4 \<or> m = 6 \<or> m = 9 \<or> m = 11 then 30 else 31)"

definition parse_date :: "ustring \<Rightarrow> (nat \<times> nat \<times> nat) option" where
  "parse_date s =
     (let y = number (take 4 s); m = number (take 2 (drop 5 s)); d = number (drop 8 s)
      in if length s = 10 \<and> s ! 4 = 45 \<and> s ! 7 = 45
            \<and> list_all is_digit (take 4 s @ take 2 (drop 5 s) @ drop 8 s)
            \<and> 1 \<le> y \<and> 1 \<le> m \<and> m \<le> 12 \<and> 1 \<le> d \<and> d \<le> days_in_month y m
         then Some (y, m, d) else None)"

definition valid_hm :: "ustring \<Rightarrow> bool" where
  "valid_hm s \<longleftrightarrow> length s = 5 \<and> s ! 2 = 58 \<and> list_all is_digit (take 2 s @ drop 3 s)
     \<and> number (take 2 s) < 24 \<and> number (drop 3 s) < 60"

definition valid_hms :: "ustring \<Rightarrow> bool" where
  "valid_hms s \<longleftrightarrow> length s = 8 \<and> valid_hm (take 5 s) \<and> s ! 5 = 58
     \<and> list_all is_digit (drop 6 s) \<and> number (drop 6 s) < 60"

definition valid_fraction :: "ustring \<Rightarrow> bool" where
  "valid_fraction f \<longleftrightarrow>
     f = [] \<or> (hd f = 46 \<and> list_all is_digit (tl f) \<and> (length f = 4 \<or> length f = 7))"

definition valid_offset :: "ustring \<Rightarrow> bool" where
  "valid_offset z \<longleftrightarrow> z = [] \<or> valid_hm (tl z)"

definition fromisoformat_basic :: "ustring \<Rightarrow> (nat \<times> nat \<times> nat) option" where
  "fromisoformat_basic s =
     (let rest = drop 10 s;
          clock = takeWhile (\<lambda>c. c \<noteq> 43 \<and> c \<noteq> 45) (drop 1 rest);
          offset = dropWhile (\<lambda>c. c \<noteq> 43 \<and> c \<noteq> 45) (drop 1 rest)
      in if rest = [] then parse_date s
         else if valid_hms (take 8 clock) \<and> valid_fraction (drop 8 clock) \<and> valid_offset offset
         then parse_date (take 10 s)
         else None)"

text \<open>The text of \<open>%Y\<close> for a year below 1000 as glibc writes it: no leading zeros.\<close>

definition year_unpadded :: "nat \<Rightarrow> ustring" where
  "year_unpadded y =
     (if y < 10 then [48 + y]
      else if y < 100 then [48 + y div 10, 48 + y mod 10]
      else [48 + y div 100 mod 10, 48 + y div 10 mod 10, 48 + y mod 10])"

text \<open>
  In \<open>example_lib\<close> the two Unicode tables are trivial (lower-casing leaves a non-ASCII
  string alone, no non-ASCII character is alphanumeric); the examples use ASCII text
  where these tables matter. In \<open>example_host\<close> every directory can be made, every file
  written and every message printed. \<open>latin1_host\<close> differs in its console, which
  takes the code points below 256 only (a Latin-1 stream): a title or a file name with
  another character cannot be printed.
\<close>

definition example_lib :: pylib where
  "example_lib = \<lparr>isalnum_tbl = (\<lambda>c. False), lower_tbl = (\<lambda>s. s),
     netloc_of = urlsplit_netloc, fromisoformat = fromisoformat_basic,
     year_text = year_unpadded\<rparr>"

definition example_host :: host where
  "example_host = \<lparr>mkdir_ok = (\<lambda>p. True), writable = (\<lambda>p. True), can_print = (\<lambda>m. True)\<rparr>"

definition latin1_host :: host where
  "latin1_host = \<lparr>mkdir_ok = (\<lambda>p. True), writable = (\<lambda>p. True),
     can_print = (\<lambda>m. case m of
         MsgRowError (Str t) e \<Rightarrow> list_all (\<lambda>c. c < 256) t
       | MsgSummary n k names \<Rightarrow> list_all (list_all (\<lambda>c. c < 256)) names
       | _ \<Rightarrow> True)\<rparr>"

text \<open>Rows for the examples: a blank title, a row with every kind of field, a row with
  a link only, a row with a title only, and a short row whose \<open>url\<close> cell is missing.\<close>

definition row_blank_title :: row where
  "row_blank_title = [ustr ''title'' \<mapsto> Str (ustr ''  ''), ustr ''note'' \<mapsto> Str []]"

definition row_full :: row where
  "row_full = [ustr ''title'' \<mapsto> Str (ustr '' My Page ''),
     ustr ''url'' \<mapsto> Str (ustr ''https://www.example.com/a/b''),
     ustr ''excerpt'' \<mapsto> Str (ustr ''Short text''),
     ustr ''tags'' \<mapsto> Str (ustr ''Python, Web Dev''),
     ustr ''folder'' \<mapsto> Str (ustr ''Tech News''),
     ustr ''created'' \<mapsto> Str (ustr ''2023-05-01T12:00:00Z'')]"

definition row_link :: row where
  "row_link = [ustr ''title'' \<mapsto> Str (ustr ''A''),
     ustr ''url'' \<mapsto> Str (ustr ''https://example.com/x''),
     ustr ''excerpt'' \<mapsto> Str (ustr '' '')]"

definition row_b :: row where
  "row_b = [ustr ''title'' \<mapsto> Str (ustr ''B'')]"

definition row_short :: row where
  "row_short = [ustr ''title'' \<mapsto> Str (ustr ''C''), ustr ''url'' \<mapsto> PyNone]"

text \<open>A short row whose title is written in two CJK characters (U+65E5, U+672C).\<close>

definition row_cjk_short :: row where
  "row_cjk_short = [ustr ''title'' \<mapsto> Str [26085, 26412], ustr ''url'' \<mapsto> PyNone]"

section \<open>Predicates used in the proofs\<close>

text \<open>Whitespace occurs only as single spaces with a non-space character after each.\<close>

fun ws_single :: "ustring \<Rightarrow> bool" where
  "ws_single [] = True"
| "ws_single [c] = (isspace c \<longrightarrow> c = 32)"
| "ws_single (c # d # cs) = ((isspace c \<longrightarrow> c = 32 \<and> \<not> isspace d) \<and> ws_single (d # cs))"

text \<open>What a file name that went through the substitutions looks like.\<close>

definition tidy :: "(uchar \<Rightarrow> bool) \<Rightarrow> ustring \<Rightarrow> bool" where
  "tidy W f \<longleftrightarrow> f \<noteq> [] \<and> \<not> isspace (hd f) \<and> \<not> isspace (last f) \<and> ws_single f \<and>
     (\<forall>c \<in> set f. c \<notin> set reserved_chars \<and> (is_word W c \<or> isspace c \<or> c \<in> set allowed_punct)) \<and>
     length f \<le> 250"

text \<open>The specification's Domain Extractor, on a host: only a leading \<open>www.\<close> is cut off.\<close>

definition strip_leading_www :: "ustring \<Rightarrow> ustring" where
  "strip_leading_www host = (if take 4 host = ustr ''www.'' then drop 4 host else host)"


section \<open>Stripping and collapsing whitespace\<close>

lemma isspace_32: "isspace 32"
  by (simp add: isspace_def)

lemma rstrip_append: "s = rstrip s @ rev (takeWhile isspace (rev s))"
  unfolding rstrip_def by (metis rev_append rev_rev_ident takeWhile_dropWhile_id)

lemma rstrip_take: "rstrip s = take (length (rstrip s)) s"
proof -
  have "take (length (rstrip s)) (rstrip s @ rev (takeWhile isspace (rev s))) = rstrip s" by simp
  then show ?thesis using rstrip_append [of s] by simp
qed

lemma set_rstrip: "set (rstrip s) \<subseteq> set s"
  by (metis rstrip_take set_take_subset)

lemma set_lstrip: "set (lstrip s) \<subseteq> set s"
  unfolding lstrip_def by (auto dest: set_dropWhileD)

lemma set_strip: "set (strip s) \<subseteq> set s"
  unfolding strip_def using set_rstrip set_lstrip by blast

lemma length_rstrip: "length (rstrip s) \<le> length s"
  by (simp add: rstrip_def length_dropWhile_le order.trans [OF length_dropWhile_le])

lemma rstrip_last: "rstrip s \<noteq> [] \<Longrightarrow> \<not> isspace (last (rstrip s))"
  unfolding rstrip_def by (simp add: last_rev hd_dropWhile)

lemma lstrip_hd: "lstrip s \<noteq> [] \<Longrightarrow> \<not> isspace (hd (lstrip s))"
  unfolding lstrip_def by (simp add: hd_dropWhile)

lemma rstrip_hd: "rstrip s \<noteq> [] \<Longrightarrow> hd (rstrip s) = hd s"
  by (metis rstrip_take hd_take length_greater_0_conv)

lemma rstrip_id: "s = [] \<or> \<not> isspace (last s) \<Longrightarrow> rstrip s = s"
  unfolding rstrip_def by (cases "rev s") (auto simp: last_rev [symmetric] hd_rev)

lemma lstrip_id: "s = [] \<or> \<not> isspace (hd s) \<Longrightarrow> lstrip s = s"
  unfolding lstrip_def by (cases s) auto

lemma strip_hd: "strip s \<noteq> [] \<Longrightarrow> \<not> isspace (hd (strip s))"
  unfolding strip_def using rstrip_hd [of "lstrip s"] lstrip_hd [of s]
  by (metis rstrip_take take_eq_Nil2 list.size(3))

lemma strip_last: "strip s \<noteq> [] \<Longrightarrow> \<not> isspace (last (strip s))"
  unfolding strip_def by (rule rstrip_last)

lemma strip_id: "s = [] \<or> (\<not> isspace (hd s) \<and> \<not> isspace (last s)) \<Longrightarrow> strip s = s"
  unfolding strip_def by (auto simp: lstrip_id rstrip_id)

lemma set_collapse_ws: "set (collapse_ws s) \<subseteq> insert 32 (set s)"
proof (induction s rule: collapse_ws.induct)
  case 1
  show ?case by simp
next
  case (2 c cs)
  show ?case
  proof (cases "isspace c")
    case True
    with 2 have "set (collapse_ws (dropWhile isspace cs)) \<subseteq> insert 32 (set (dropWhile isspace cs))"
      by simp
    moreover have "set (dropWhile isspace cs) \<subseteq> set cs" by (auto dest: set_dropWhileD)
    ultimately show ?thesis using True by auto
  next
    case False
    with 2 show ?thesis by auto
  qed
qed

lemma ws_single_Cons:
  "ws_single (c # s) \<longleftrightarrow>
     (isspace c \<longrightarrow> c = 32 \<and> (s \<noteq> [] \<longrightarrow> \<not> isspace (hd s))) \<and> ws_single s"
  by (cases s) auto

lemma collapse_ws_Nil: "collapse_ws s = [] \<longleftrightarrow> s = []"
  by (cases s) auto

lemma collapse_ws_hd: "s \<noteq> [] \<Longrightarrow> \<not> isspace (hd s) \<Longrightarrow> hd (collapse_ws s) = hd s"
  by (cases s) auto

lemma ws_single_collapse: "ws_single (collapse_ws s)"
proof (induction s rule: collapse_ws.induct)
  case 1
  show ?case by simp
next
  case (2 c cs)
  show ?case
  proof (cases "isspace c")
    case True
    let ?r = "dropWhile isspace cs"
    have ih: "ws_single (collapse_ws ?r)" using 2 True by simp
    have "collapse_ws ?r \<noteq> [] \<longrightarrow> \<not> isspace (hd (collapse_ws ?r))"
    proof
      assume "collapse_ws ?r \<noteq> []"
      then have ne: "?r \<noteq> []" by (simp add: collapse_ws_Nil)
      then have "\<not> isspace (hd ?r)" by (simp add: hd_dropWhile)
      then show "\<not> isspace (hd (collapse_ws ?r))" using ne by (simp add: collapse_ws_hd)
    qed
    then show ?thesis using True ih by (simp add: ws_single_Cons)
  next
    case False
    then show ?thesis using 2 by (simp add: ws_single_Cons)
  qed
qed

lemma collapse_ws_id: "ws_single s \<Longrightarrow> collapse_ws s = s"
proof (induction s)
  case Nil
  show ?case by simp
next
  case (Cons c s)
  then have ws: "ws_single s"
    and c: "isspace c \<longrightarrow> c = 32 \<and> (s \<noteq> [] \<longrightarrow> \<not> isspace (hd s))"
    by (simp_all add: ws_single_Cons)
  have "isspace c \<Longrightarrow> dropWhile isspace s = s" using c by (cases s) auto
  then show ?case using Cons.IH ws c by auto
qed

lemma ws_single_take: "ws_single s \<Longrightarrow> ws_single (take n s)"
proof (induction s arbitrary: n)
  case Nil
  show ?case by simp
next
  case (Cons c s)
  show ?case
  proof (cases n)
    case 0
    then show ?thesis by simp
  next
    case (Suc m)
    have "take m s \<noteq> [] \<Longrightarrow> hd (take m s) = hd s" by (cases s; cases m) auto
    moreover have "take m s \<noteq> [] \<Longrightarrow> s \<noteq> []" by auto
    ultimately show ?thesis using Cons Suc by (auto simp: ws_single_Cons)
  qed
qed

lemma ws_single_dropWhile: "ws_single s \<Longrightarrow> ws_single (dropWhile P s)"
  by (induction s) (auto simp: ws_single_Cons)

lemma ws_single_rstrip: "ws_single s \<Longrightarrow> ws_single (rstrip s)"
  by (metis rstrip_take ws_single_take)

lemma ws_single_strip: "ws_single s \<Longrightarrow> ws_single (strip s)"
  by (simp add: strip_def lstrip_def ws_single_rstrip ws_single_dropWhile)

section \<open>The file name sanitizer\<close>

lemma untitled_fixed: "sanitize_filename W (ustr ''Untitled'') = ustr ''Untitled''"
  by (simp add: ustr_def isspace_def strip_def lstrip_def rstrip_def sanitize_filename_def
      reserved_chars_def allowed_punct_def is_word_def ascii_alnum_def Let_def)

lemma untitled_safe:
  "ustr ''Untitled'' \<noteq> [] \<and> length (ustr ''Untitled'') \<le> 250 \<and>
   set (ustr ''Untitled'') \<inter> set reserved_chars = {}"
  by (simp add: ustr_def reserved_chars_def)

lemma tidy_fixed: "tidy W f \<Longrightarrow> sanitize_filename W f = f"
proof -
  assume t: "tidy W f"
  then have ne: "f \<noteq> []" and st: "strip f = f" and ws: "collapse_ws f = f"
    and len: "length f \<le> 250"
    by (simp_all add: tidy_def strip_id collapse_ws_id)
  have f1: "filter (\<lambda>c. c \<notin> set reserved_chars) f = f" using t by (simp add: tidy_def)
  have f2: "filter (\<lambda>c. is_word W c \<or> isspace c \<or> c \<in> set allowed_punct) f = f"
    using t by (simp add: tidy_def)
  show ?thesis using ne st ws len f1 f2 by (simp add: sanitize_filename_def Let_def)
qed

lemma sanitize_body_tidy:
  assumes "h = strip (collapse_ws g)"
    and "f = (if length h > 250 then rstrip (take 250 h) else h)"
    and "\<forall>c \<in> set g. c \<notin> set reserved_chars \<and> (is_word W c \<or> isspace c \<or> c \<in> set allowed_punct)"
    and "f \<noteq> []"
  shows "tidy W f"
proof -
  have wsh: "ws_single h" using assms(1) by (simp add: ws_single_strip ws_single_collapse)
  have fpre: "f = take (length f) h"
  proof (cases "length h > 250")
    case True
    then have "f = rstrip (take 250 h)" using assms(2) by simp
    then have "f = take (length f) (take 250 h)" using rstrip_take [of "take 250 h"] by simp
    then show ?thesis by (metis take_take min.cobounded1 length_take min.absorb1)
  next
    case False
    then show ?thesis using assms(2) by simp
  qed
  have hne: "h \<noteq> []" using fpre assms(4) by auto
  have hd: "\<not> isspace (hd f)"
  proof -
    have "hd f = hd h" using fpre assms(4) by (metis hd_take length_greater_0_conv)
    then show ?thesis using strip_hd [of "collapse_ws g"] hne assms(1) by simp
  qed
  have lst: "\<not> isspace (last f)"
  proof (cases "length h > 250")
    case True
    then show ?thesis using assms(2,4) rstrip_last [of "take 250 h"] by simp
  next
    case False
    then show ?thesis using assms(1,2) hne strip_last [of "collapse_ws g"] by simp
  qed
  have ws: "ws_single f" using fpre wsh ws_single_take by metis
  have len: "length f \<le> 250"
  proof (cases "length h > 250")
    case True
    then show ?thesis using assms(2) length_rstrip [of "take 250 h"] by simp
  next
    case False
    then show ?thesis using assms(2) by simp
  qed
  have "set f \<subseteq> set h" using fpre by (metis set_take_subset)
  also have "\<dots> \<subseteq> set (collapse_ws g)" using assms(1) set_strip by simp
  also have "\<dots> \<subseteq> insert 32 (set g)" by (rule set_collapse_ws)
  finally have sub: "set f \<subseteq> insert 32 (set g)" .
  have "32 \<notin> set reserved_chars" by (simp add: reserved_chars_def)
  then have chars:
    "\<forall>c \<in> set f. c \<notin> set reserved_chars \<and> (is_word W c \<or> isspace c \<or> c \<in> set allowed_punct)"
    using sub assms(3) isspace_32 by auto
  show ?thesis unfolding tidy_def using assms(4) hd lst ws chars len by blast
qed

lemma sanitize_cases:
  "sanitize_filename W t = ustr ''Untitled'' \<or> tidy W (sanitize_filename W t)"
proof (cases "t = [] \<or> strip t = []")
  case True
  then show ?thesis by (simp add: sanitize_filename_def)
next
  case False
  define g where "g = filter (\<lambda>c. is_word W c \<or> isspace c \<or> c \<in> set allowed_punct)
      (filter (\<lambda>c. c \<notin> set reserved_chars) t)"
  define h where "h = strip (collapse_ws g)"
  define f where "f = (if length h > 250 then rstrip (take 250 h) else h)"
  have res: "sanitize_filename W t = (if f \<noteq> [] then f else ustr ''Untitled'')"
    using False by (simp add: sanitize_filename_def Let_def g_def h_def f_def)
  show ?thesis
  proof (cases "f = []")
    case True
    then show ?thesis using res by simp
  next
    case nonempty: False
    have "\<forall>c \<in> set g. c \<notin> set reserved_chars \<and> (is_word W c \<or> isspace c \<or> c \<in> set allowed_punct)"
      by (auto simp: g_def)
    then have "tidy W f" using sanitize_body_tidy [OF h_def f_def _ nonempty] by blast
    then show ?thesis using res nonempty by simp
  qed
qed

text \<open>
  Claim C5. For every input string, whatever the Unicode table of alphanumerics, the
  sanitized file name is not empty, has at most 250 characters and contains none of the
  reserved characters \<open>< > : " / \ | ? *\<close>.
\<close>

theorem sanitize_filename_safe:
  "sanitize_filename W title \<noteq> [] \<and> length (sanitize_filename W title) \<le> 250 \<and>
   set (sanitize_filename W title) \<inter> set reserved_chars = {}"
proof -
  consider "sanitize_filename W title = ustr ''Untitled''" | "tidy W (sanitize_filename W title)"
    using sanitize_cases by blast
  then show ?thesis
  proof cases
    case 1
    then show ?thesis using untitled_safe by simp
  next
    case 2
    then show ?thesis unfolding tidy_def by blast
  qed
qed

text \<open>
  Claim C10. The sanitizer is idempotent: sanitizing a sanitized file name returns it
  unchanged.
\<close>

theorem sanitize_filename_idempotent:
  "sanitize_filename W (sanitize_filename W title) = sanitize_filename W title"
proof -
  consider "sanitize_filename W title = ustr ''Untitled''" | "tidy W (sanitize_filename W title)"
    using sanitize_cases by blast
  then show ?thesis
  proof cases
    case 1
    then show ?thesis by (simp add: untitled_fixed)
  next
    case 2
    then show ?thesis by (rule tidy_fixed)
  qed
qed

section \<open>The tag formatter\<close>

lemma unique_loop_set: "set (unique_loop xs acc) = set acc \<union> set xs"
  by (induction xs arbitrary: acc) auto

lemma unique_loop_distinct: "distinct acc \<Longrightarrow> distinct (unique_loop xs acc)"
  by (induction xs arbitrary: acc) auto

lemma unique_loop_prefix: "take (length acc) (unique_loop xs acc) = acc"
proof (induction xs arbitrary: acc)
  case Nil
  show ?case by simp
next
  case (Cons x xs)
  show ?case
  proof (cases "x \<in> set acc")
    case True
    then show ?thesis using Cons [of acc] by simp
  next
    case False
    have "take (length acc) (take (length (acc @ [x])) (unique_loop xs (acc @ [x]))) = take (length acc) (acc @ [x])"
      using Cons [of "acc @ [x]"] by simp
    then show ?thesis using False by (simp add: min_def)
  qed
qed

lemma count_list_distinct: "distinct xs \<Longrightarrow> count_list xs x = (if x \<in> set xs then 1 else 0)"
  by (induction xs) auto

lemma strip_Nil_iff: "strip s = [] \<longleftrightarrow> list_all isspace s"
proof
  assume "strip s = []"
  then have "dropWhile isspace (rev (dropWhile isspace s)) = []"
    by (simp add: strip_def rstrip_def lstrip_def)
  then have all: "\<forall>c \<in> set (dropWhile isspace s). isspace c"
    by (simp add: dropWhile_eq_Nil_conv)
  have "dropWhile isspace s = []"
  proof (rule ccontr)
    assume ne: "dropWhile isspace s \<noteq> []"
    then have "\<not> isspace (hd (dropWhile isspace s))" by (simp add: hd_dropWhile)
    moreover have "hd (dropWhile isspace s) \<in> set (dropWhile isspace s)" using ne by simp
    ultimately show False using all by blast
  qed
  then show "list_all isspace s" by (simp add: dropWhile_eq_Nil_conv list_all_iff)
next
  assume "list_all isspace s"
  then show "strip s = []"
    by (auto simp: strip_def rstrip_def lstrip_def list_all_iff dest: set_dropWhileD)
qed

lemma split_on_nonempty: "split_on sep s \<noteq> []"
  by (induction s) (auto split: list.splits)

lemma split_on_pieces: "p \<in> set (split_on sep s) \<Longrightarrow> set p \<subseteq> set s"
proof (induction s arbitrary: p)
  case Nil
  then show ?case by simp
next
  case (Cons c cs)
  show ?case
  proof (cases "c = sep")
    case True
    then show ?thesis using Cons by auto
  next
    case False
    obtain a list where sp: "split_on sep cs = a # list" using split_on_nonempty [of sep cs] by (cases "split_on sep cs") auto
    have "set a \<subseteq> set cs" using Cons.IH [of a] sp by simp
    moreover have "\<And>q. q \<in> set list \<Longrightarrow> set q \<subseteq> set cs" using Cons.IH sp by simp
    ultimately show ?thesis using Cons.prems False sp by auto
  qed
qed

lemma existing_tags_blank: "strip tags_str = [] \<Longrightarrow> existing_tags L tags_str = []"
proof -
  assume "strip tags_str = []"
  then have all: "list_all isspace tags_str" by (simp add: strip_Nil_iff)
  have "\<forall>p \<in> set (split_on 44 tags_str). strip p = []"
  proof
    fix p assume "p \<in> set (split_on 44 tags_str)"
    then have "set p \<subseteq> set tags_str" by (rule split_on_pieces)
    then have "list_all isspace p" using all by (auto simp: list_all_iff)
    then show "strip p = []" by (simp add: strip_Nil_iff)
  qed
  then show ?thesis by (simp add: existing_tags_def filter_empty_conv)
qed

lemma format_tags_unfold:
  "format_tags L tags_str folder =
     unique_loop
       ((if folder \<noteq> [] \<and> lower L folder \<noteq> ustr ''unsorted''
         then [replace (ustr '' '') (ustr ''-'') (lower L folder)] else [])
        @ existing_tags L tags_str)
       [ustr ''clippings'']"
proof (cases "strip tags_str = []")
  case True
  then show ?thesis by (simp add: format_tags_def Let_def existing_tags_blank)
next
  case False
  then have "tags_str \<noteq> []" by (auto simp: strip_def lstrip_def rstrip_def)
  then show ?thesis using False by (simp add: format_tags_def Let_def)
qed

text \<open>
  Claim C6. For every raw tags string and folder, whatever the case mapping beyond
  ASCII, the tag list holds \<open>clippings\<close> exactly once and has at least one element;
  moreover no tag occurs twice and \<open>clippings\<close> comes first.
\<close>

theorem format_tags_clippings_once:
  "count_list (format_tags L tags_str folder) (ustr ''clippings'') = 1 \<and>
   1 \<le> length (format_tags L tags_str folder) \<and>
   distinct (format_tags L tags_str folder) \<and>
   hd (format_tags L tags_str folder) = ustr ''clippings''"
proof -
  let ?r = "format_tags L tags_str folder"
  obtain xs where r: "?r = unique_loop xs [ustr ''clippings'']"
    using format_tags_unfold by blast
  have d: "distinct ?r" using r unique_loop_distinct [of "[ustr ''clippings'']" xs] by simp
  have m: "ustr ''clippings'' \<in> set ?r" using r by (simp add: unique_loop_set)
  have p: "take 1 ?r = [ustr ''clippings'']"
    using r unique_loop_prefix [of "[ustr ''clippings'']" xs] by simp
  then have ne: "?r \<noteq> []" by auto
  then have h: "hd ?r = ustr ''clippings''" using p by (cases ?r) auto
  have "1 \<le> length ?r" using ne by (cases ?r) auto
  then show ?thesis using d m h by (simp add: count_list_distinct)
qed

lemma unique_loop_append: "\<exists>ys. unique_loop xs acc = acc @ ys"
  by (metis unique_loop_prefix append_take_drop_id)

lemma unique_loop_second:
  "x \<noteq> c \<Longrightarrow> unique_loop (x # xs) [c] ! 1 = x"
proof -
  assume "x \<noteq> c"
  then have "unique_loop (x # xs) [c] = unique_loop xs [c, x]" by simp
  moreover obtain ys where "unique_loop xs [c, x] = [c, x] @ ys"
    using unique_loop_append by blast
  ultimately show ?thesis by simp
qed

text \<open>
  Claim C7. A folder that is empty, or whose lower-cased value is \<open>unsorted\<close>, adds no
  tag: the result is that of the empty folder, and its tags are \<open>clippings\<close> and the
  normalised user tags. Every other folder contributes its lower-cased value with spaces
  replaced by hyphens, placed right after \<open>clippings\<close> (unless it is \<open>clippings\<close>
  itself, which is already there); the folder \<open>Tech News\<close> gives \<open>tech-news\<close>.
\<close>

theorem format_tags_folder:
  "(folder = [] \<or> lower L folder = ustr ''unsorted'' \<longrightarrow>
      format_tags L tags_str folder = format_tags L tags_str [] \<and>
      set (format_tags L tags_str folder) = insert (ustr ''clippings'') (set (existing_tags L tags_str)))
   \<and> (folder \<noteq> [] \<and> lower L folder \<noteq> ustr ''unsorted'' \<longrightarrow>
      set (format_tags L tags_str folder) =
        insert (ustr ''clippings'') (insert (replace (ustr '' '') (ustr ''-'') (lower L folder))
          (set (existing_tags L tags_str))) \<and>
      (replace (ustr '' '') (ustr ''-'') (lower L folder) \<noteq> ustr ''clippings'' \<longrightarrow>
         format_tags L tags_str folder ! 1 = replace (ustr '' '') (ustr ''-'') (lower L folder)))
   \<and> format_tags L tags_str (ustr ''Tech News'') ! 1 = ustr ''tech-news''"
proof (intro conjI impI)
  assume "folder = [] \<or> lower L folder = ustr ''unsorted''"
  then show "format_tags L tags_str folder = format_tags L tags_str []"
    by (auto simp: format_tags_unfold)
next
  assume "folder = [] \<or> lower L folder = ustr ''unsorted''"
  then show "set (format_tags L tags_str folder) = insert (ustr ''clippings'') (set (existing_tags L tags_str))"
    by (auto simp: format_tags_unfold unique_loop_set)
next
  assume "folder \<noteq> [] \<and> lower L folder \<noteq> ustr ''unsorted''"
  then show "set (format_tags L tags_str folder) =
        insert (ustr ''clippings'') (insert (replace (ustr '' '') (ustr ''-'') (lower L folder))
          (set (existing_tags L tags_str)))"
    by (auto simp: format_tags_unfold unique_loop_set)
next
  assume a: "folder \<noteq> [] \<and> lower L folder \<noteq> ustr ''unsorted''"
    and b: "replace (ustr '' '') (ustr ''-'') (lower L folder) \<noteq> ustr ''clippings''"
  show "format_tags L tags_str folder ! 1 = replace (ustr '' '') (ustr ''-'') (lower L folder)"
    using a unique_loop_second [OF b] by (simp add: format_tags_unfold)
next
  have l: "lower L (ustr ''Tech News'') = ustr ''tech news''"
    by (simp add: lower_def ustr_def ascii_lower_def)
  have r: "replace (ustr '' '') (ustr ''-'') (ustr ''tech news'') = ustr ''tech-news''"
    by (simp add: ustr_def)
  have "ustr ''tech-news'' \<noteq> ustr ''clippings''" by (simp add: ustr_def)
  then have "unique_loop (ustr ''tech-news'' # existing_tags L tags_str) [ustr ''clippings''] ! 1 = ustr ''tech-news''"
    by (rule unique_loop_second)
  moreover have "ustr ''Tech News'' \<noteq> [] \<and> ustr ''tech news'' \<noteq> ustr ''unsorted''"
    by (simp add: ustr_def)
  ultimately show "format_tags L tags_str (ustr ''Tech News'') ! 1 = ustr ''tech-news''"
    by (simp add: format_tags_unfold l r)
qed

theorem format_tags_folder_witness:
  "lower (\<lambda>s. s) (ustr ''UnSorted'') = ustr ''unsorted'' \<and>
   ustr ''Tech News'' \<noteq> [] \<and> lower (\<lambda>s. s) (ustr ''Tech News'') \<noteq> ustr ''unsorted'' \<and>
   format_tags (\<lambda>s. s) (ustr ''Python, web dev'') (ustr ''UnSorted'')
     = [ustr ''clippings'', ustr ''python'', ustr ''web-dev''] \<and>
   format_tags (\<lambda>s. s) (ustr ''Python, web dev'') (ustr ''Tech News'')
     = [ustr ''clippings'', ustr ''tech-news'', ustr ''python'', ustr ''web-dev'']"
  using format_tags_folder [of "ustr ''UnSorted''" "\<lambda>s. s" "ustr ''Python, web dev''"]
    format_tags_folder [of "ustr ''Tech News''" "\<lambda>s. s" "ustr ''Python, web dev''"]
  by (simp add: format_tags_def existing_tags_def lower_def ascii_lower_def ustr_def
      strip_def lstrip_def rstrip_def isspace_def Let_def)

section \<open>The domain extractor and the date formatter\<close>

lemmas eval_simps = ustr_def isspace_def strip_def lstrip_def rstrip_def Let_def
  urlsplit_netloc_def ascii_alpha_def ascii_alnum_def scheme_char_def
  fromisoformat_basic_def valid_hms_def valid_hm_def parse_date_def days_in_month_def
  valid_fraction_def valid_offset_def year_unpadded_def
  number_def is_digit_def extract_domain_def format_date_def strftime_ymd_def digits2_def digits4_def

text \<open>
  Claim C3. On \<open>https://www.example.com/a/b\<close> the function returns \<open>example.com\<close>. On
  \<open>https://awww.example.com/a\<close>, whose netloc \<open>awww.example.com\<close> has no leading
  \<open>www.\<close> and would be left alone by cutting a leading prefix, it returns
  \<open>aexample.com\<close>: \<open>replace\<close> removes the \<open>www.\<close> inside the host.
\<close>

theorem extract_domain_removes_inner_www:
  "urlsplit_netloc (ustr ''https://awww.example.com/a'') = Some (ustr ''awww.example.com'') \<and>
   strip_leading_www (ustr ''awww.example.com'') = ustr ''awww.example.com'' \<and>
   extract_domain urlsplit_netloc (ustr ''https://awww.example.com/a'') = ustr ''aexample.com'' \<and>
   extract_domain urlsplit_netloc (ustr ''https://www.example.com/a/b'') = ustr ''example.com''"
  by (simp add: eval_simps strip_leading_www_def)

lemma mod10_le: "(n::nat) mod 10 \<le> 9"
  using mod_less_divisor [of 10 n] by linarith

lemma digits_shape:
  "length (digits4 y @ ustr ''-'' @ digits2 m @ ustr ''-'' @ digits2 d) = 10 \<and>
   list_all is_digit (digits4 y @ digits2 m @ digits2 d)"
  by (simp add: digits4_def digits2_def ustr_def is_digit_def mod10_le)

text \<open>
  What the two functions do with failures, whatever the library parsers do: a blank URL,
  a URL whose parsing raises and a URL without netloc give the empty string; a blank
  timestamp and one whose parsing raises give the empty string. A parsed timestamp with
  a year from 1000 on is returned as its date, ten characters \<open>YYYY-MM-DD\<close>, and
  \<open>2023-05-01T12:00:00Z\<close> (parsed, after \<open>Z\<close> became \<open>+00:00\<close>, as the first of May 2023)
  gives \<open>2023-05-01\<close>.
\<close>

lemma parsers_absorb_failures:
  "(strip url = [] \<longrightarrow> extract_domain P url = []) \<and>
   (P url = None \<longrightarrow> extract_domain P url = []) \<and>
   (P url = Some [] \<longrightarrow> extract_domain P url = []) \<and>
   (strip date_str = [] \<longrightarrow> format_date F Y date_str = []) \<and>
   (F (replace (ustr ''Z'') (ustr ''+00:00'') date_str) = None \<longrightarrow> format_date F Y date_str = []) \<and>
   (F (ustr ''2023-05-01T12:00:00+00:00'') = Some (2023, 5, 1) \<longrightarrow>
      format_date F Y (ustr ''2023-05-01T12:00:00Z'') = ustr ''2023-05-01'') \<and>
   (strip date_str \<noteq> [] \<and> F (replace (ustr ''Z'') (ustr ''+00:00'') date_str) = Some (y, m, d)
      \<and> 1000 \<le> y \<longrightarrow>
      format_date F Y date_str = digits4 y @ ustr ''-'' @ digits2 m @ ustr ''-'' @ digits2 d \<and>
      length (format_date F Y date_str) = 10)"
proof (intro conjI impI)
  show "extract_domain P url = []" if "strip url = []"
    using that by (simp add: extract_domain_def)
  show "extract_domain P url = []" if "P url = None"
    using that by (simp add: extract_domain_def)
  show "extract_domain P url = []" if "P url = Some []"
    using that by (simp add: extract_domain_def)
  show "format_date F Y date_str = []" if "strip date_str = []"
    using that by (simp add: format_date_def)
  show "format_date F Y date_str = []"
    if "F (replace (ustr ''Z'') (ustr ''+00:00'') date_str) = None"
    using that by (simp add: format_date_def)
  show "format_date F Y (ustr ''2023-05-01T12:00:00Z'') = ustr ''2023-05-01''"
    if "F (ustr ''2023-05-01T12:00:00+00:00'') = Some (2023, 5, 1)"
  proof -
    have "replace (ustr ''Z'') (ustr ''+00:00'') (ustr ''2023-05-01T12:00:00Z'')
        = ustr ''2023-05-01T12:00:00+00:00''"
      by (simp add: ustr_def)
    moreover have "strip (ustr ''2023-05-01T12:00:00Z'') \<noteq> [] \<and> ustr ''2023-05-01T12:00:00Z'' \<noteq> []"
      by (simp add: ustr_def strip_def lstrip_def rstrip_def isspace_def)
    moreover have "strftime_ymd Y (2023, 5, 1) = ustr ''2023-05-01''"
      by (simp add: strftime_ymd_def digits4_def digits2_def ustr_def)
    ultimately show ?thesis using that by (simp add: format_date_def)
  qed
  assume a: "strip date_str \<noteq> [] \<and> F (replace (ustr ''Z'') (ustr ''+00:00'') date_str) = Some (y, m, d)
      \<and> 1000 \<le> y"
  then have ne: "date_str \<noteq> []" by (auto simp: strip_def lstrip_def rstrip_def)
  show r: "format_date F Y date_str = digits4 y @ ustr ''-'' @ digits2 m @ ustr ''-'' @ digits2 d"
    using a ne by (simp add: format_date_def strftime_ymd_def)
  show "length (format_date F Y date_str) = 10"
    unfolding r using digits_shape by blast
qed

text \<open>
  Claim C8. The timestamp \<open>0999-01-01T00:00:00Z\<close> is valid: after \<open>Z\<close> became \<open>+00:00\<close>
  it parses as the first of January 999. Where the C library writes \<open>%Y\<close> without
  leading zeros, the function returns \<open>999-01-01\<close>, nine characters, which is neither
  the date part of the input nor of the form \<open>YYYY-MM-DD\<close> that the docstring names.
  The timestamp \<open>2023-05-01T12:00:00Z\<close> gives \<open>2023-05-01\<close>.
\<close>

theorem format_date_year_below_1000:
  "fromisoformat_basic (replace (ustr ''Z'') (ustr ''+00:00'') (ustr ''0999-01-01T00:00:00Z''))
     = Some (999, 1, 1) \<and>
   format_date fromisoformat_basic year_unpadded (ustr ''0999-01-01T00:00:00Z'') = ustr ''999-01-01'' \<and>
   length (format_date fromisoformat_basic year_unpadded (ustr ''0999-01-01T00:00:00Z'')) = 9 \<and>
   take 10 (ustr ''0999-01-01T00:00:00Z'') = ustr ''0999-01-01'' \<and>
   format_date fromisoformat_basic year_unpadded (ustr ''2023-05-01T12:00:00Z'') = ustr ''2023-05-01''"
  by (simp add: eval_simps)

section \<open>The document assembler\<close>

lemma yaml_lines_no_heading: "l \<in> set (yaml_lines lib r) \<Longrightarrow> l \<noteq> [] \<and> hd l \<noteq> 35"
  by (auto simp: yaml_lines_def Let_def ustr_def)

lemma heading_hd: "hd (ustr ''## Summary'') = 35 \<and> hd (ustr ''## Highlights'') = 35 \<and> hd (ustr ''## Source'') = 35"
  by (simp add: ustr_def)

lemma yaml_lines_headings:
  "ustr ''## Summary'' \<notin> set (yaml_lines lib r) \<and> ustr ''## Highlights'' \<notin> set (yaml_lines lib r) \<and>
   ustr ''## Source'' \<notin> set (yaml_lines lib r)"
  using yaml_lines_no_heading heading_hd by blast

text \<open>
  Claim C1, as the code has it. For every row whose cells are strings, the metadata block
  ends with the line \<open>title: \<close> followed by the trimmed title (the empty string for
  a missing or blank title) and then the closing \<open>---\<close>, and the document is the
  metadata block followed by the body sections, joined by newlines.
\<close>

theorem metadata_ends_with_title:
  assumes "\<not> list_ex (\<lambda>k. r (ustr k) = Some PyNone) field_names"
  shows "(\<exists>pre. yaml_lines lib r = pre @ [ustr ''title: '' @ field r ''title'', ustr ''---'']) \<and>
    create_markdown_content lib r = Inr (join [10] (yaml_lines lib r @ section_lines r)) \<and>
    field r ''title'' = (case r (ustr ''title'') of Some (Str t) \<Rightarrow> strip t | _ \<Rightarrow> [])"
proof (intro conjI)
  show "\<exists>pre. yaml_lines lib r = pre @ [ustr ''title: '' @ field r ''title'', ustr ''---'']"
    unfolding yaml_lines_def Let_def
    by (metis append.assoc)
  show "create_markdown_content lib r = Inr (join [10] (yaml_lines lib r @ section_lines r))"
    using assms by (simp add: create_markdown_content_def content_lines_def)
  show "field r ''title'' = (case r (ustr ''title'') of Some (Str t) \<Rightarrow> strip t | _ \<Rightarrow> [])"
    by (simp add: field_def strip_def lstrip_def rstrip_def split: option.splits pyval.splits)
qed

text \<open>
  Claim C9. For every row whose cells are strings and whose trimmed excerpt, note and
  highlights are empty, the body consists of the Source section when the trimmed URL is
  not empty and of nothing otherwise: no line of the document is the Summary or the
  Highlights heading, and a line is the Source heading exactly when the URL is not empty.
\<close>

theorem sections_without_text:
  assumes "\<not> list_ex (\<lambda>k. r (ustr k) = Some PyNone) field_names"
    and "field r ''excerpt'' = []" and "field r ''note'' = []" and "field r ''highlights'' = []"
  shows "section_lines r =
      (if field r ''url'' = [] then []
       else [[], ustr ''## Source'', [], ustr ''[View Original]('' @ field r ''url'' @ ustr '')''])
    \<and> ustr ''## Summary'' \<notin> set (content_lines lib r)
    \<and> ustr ''## Highlights'' \<notin> set (content_lines lib r)
    \<and> (ustr ''## Source'' \<in> set (content_lines lib r) \<longleftrightarrow> field r ''url'' \<noteq> [])
    \<and> create_markdown_content lib r = Inr (join [10] (content_lines lib r))"
proof -
  have s: "section_lines r =
      (if field r ''url'' = [] then []
       else [[], ustr ''## Source'', [], ustr ''[View Original]('' @ field r ''url'' @ ustr '')''])"
    using assms(2-4) by (simp add: section_lines_def Let_def)
  have c: "set (content_lines lib r) = set (yaml_lines lib r) \<union> set (section_lines r)"
    by (simp add: content_lines_def)
  have n1: "ustr ''## Summary'' \<notin> set (section_lines r)"
    unfolding s by (auto simp: ustr_def)
  have n2: "ustr ''## Highlights'' \<notin> set (section_lines r)"
    unfolding s by (auto simp: ustr_def)
  have n3: "ustr ''## Source'' \<in> set (section_lines r) \<longleftrightarrow> field r ''url'' \<noteq> []"
    unfolding s by (auto simp: ustr_def)
  show ?thesis
    using s c n1 n2 n3 yaml_lines_headings [of lib r] assms(1)
    by (simp add: create_markdown_content_def)
qed

lemmas doc_simps = yaml_lines_def section_lines_def content_lines_def create_markdown_content_def
  field_def field_names_def format_tags_def existing_tags_def lower_def ascii_lower_def
  example_lib_def

lemmas run_simps = convert_csv_to_markdown_def convert_row_def row_failed_def batch_failed_def
  path_join_def example_host_def latin1_host_def
  sanitize_filename_def reserved_chars_def allowed_punct_def is_word_def

theorem metadata_ends_with_title_witness:
  "\<not> list_ex (\<lambda>k. row_full (ustr k) = Some PyNone) field_names \<and>
   row_full (ustr ''title'') = Some (Str (ustr '' My Page '')) \<and>
   field row_full ''title'' = ustr ''My Page'' \<and>
   yaml_lines example_lib row_full =
     [ustr ''---'', ustr ''author:'', ustr ''- '' @ [39] @ ustr ''[[example.com]]'' @ [39],
      ustr ''created: '' @ [39] @ ustr ''2023-05-01'' @ [39],
      ustr ''description: Short text'',
      ustr ''published: '' @ [39, 39],
      ustr ''source: https://www.example.com/a/b'',
      ustr ''tags:'', ustr ''- clippings'', ustr ''- tech-news'', ustr ''- python'', ustr ''- web-dev'',
      ustr ''title: My Page'', ustr ''---''] \<and>
   create_markdown_content example_lib row_full =
     Inr (join [10] (yaml_lines example_lib row_full @ section_lines row_full))"
proof -
  have h: "\<not> list_ex (\<lambda>k. row_full (ustr k) = Some PyNone) field_names"
    by (simp add: row_full_def field_names_def ustr_def)
  show ?thesis
    using h metadata_ends_with_title [OF h, of example_lib]
    by (simp add: eval_simps doc_simps row_full_def)
qed

theorem blank_title_is_not_untitled:
  "yaml_lines example_lib row_blank_title =
     [ustr ''---'', ustr ''published: '' @ [39, 39], ustr ''tags:'', ustr ''- clippings'',
      ustr ''title: '', ustr ''---''] \<and>
   ustr ''title: '' \<noteq> ustr ''title: Untitled'' \<and>
   create_markdown_content example_lib row_blank_title =
     Inr (join [10] [ustr ''---'', ustr ''published: '' @ [39, 39], ustr ''tags:'',
       ustr ''- clippings'', ustr ''title: '', ustr ''---''])"
  by (simp add: eval_simps doc_simps row_blank_title_def)

theorem sections_without_text_witness:
  "\<not> list_ex (\<lambda>k. row_link (ustr k) = Some PyNone) field_names \<and>
   field row_link ''excerpt'' = [] \<and> field row_link ''note'' = [] \<and>
   field row_link ''highlights'' = [] \<and> field row_link ''url'' = ustr ''https://example.com/x'' \<and>
   section_lines row_link =
     [[], ustr ''## Source'', [], ustr ''[View Original](https://example.com/x)''] \<and>
   ustr ''## Source'' \<in> set (content_lines example_lib row_link) \<and>
   ustr ''## Summary'' \<notin> set (content_lines example_lib row_link) \<and>
   section_lines row_b = [] \<and>
   ustr ''## Source'' \<notin> set (content_lines example_lib row_b)"
proof -
  have h1: "\<not> list_ex (\<lambda>k. row_link (ustr k) = Some PyNone) field_names"
    by (simp add: row_link_def field_names_def ustr_def)
  have h2: "field row_link ''excerpt'' = []" "field row_link ''note'' = []"
    "field row_link ''highlights'' = []"
    by (simp_all add: eval_simps field_def row_link_def)
  have u: "field row_link ''url'' = ustr ''https://example.com/x''"
    by (simp add: eval_simps field_def row_link_def)
  have g1: "\<not> list_ex (\<lambda>k. row_b (ustr k) = Some PyNone) field_names"
    by (simp add: row_b_def field_names_def ustr_def)
  have g2: "field row_b ''excerpt'' = []" "field row_b ''note'' = []"
    "field row_b ''highlights'' = []" "field row_b ''url'' = []"
    by (simp_all add: eval_simps field_def row_b_def)
  have ne: "ustr ''https://example.com/x'' \<noteq> []" by (simp add: ustr_def)
  show ?thesis
    using h1 h2 u ne g1 g2 sections_without_text [OF h1 h2, of example_lib]
      sections_without_text [OF g1 g2(1-3), of example_lib]
    by (simp add: ustr_def)
qed

section \<open>The batch driver\<close>

lemma convert_row_inv:
  assumes "convert_row lib h output_dir r st = Inr st'"
    and "successful_conversions st = length (created_files st)"
    and "\<forall>f \<in> set (created_files st). path_join output_dir f \<in> dom (files st)"
  shows "successful_conversions st' = length (created_files st')
    \<and> (\<forall>f \<in> set (created_files st'). path_join output_dir f \<in> dom (files st'))
    \<and> successful_conversions st' + failed_conversions st'
        = successful_conversions st + failed_conversions st + 1"
  using assms
  by (auto simp: convert_row_def row_failed_def Let_def
      split: option.splits pyval.splits sum.splits if_splits)

lemma convert_rows_inv:
  assumes "successful_conversions st = length (created_files st)"
    and "\<forall>f \<in> set (created_files st). path_join output_dir f \<in> dom (files st)"
  shows "successful_conversions (fst (convert_rows lib h output_dir rs st))
           = length (created_files (fst (convert_rows lib h output_dir rs st)))
    \<and> (\<forall>f \<in> set (created_files (fst (convert_rows lib h output_dir rs st))).
          path_join output_dir f \<in> dom (files (fst (convert_rows lib h output_dir rs st))))
    \<and> (snd (convert_rows lib h output_dir rs st) = None \<longrightarrow>
         successful_conversions (fst (convert_rows lib h output_dir rs st))
           + failed_conversions (fst (convert_rows lib h output_dir rs st))
         = successful_conversions st + failed_conversions st + length rs)"
  using assms
proof (induction rs arbitrary: st)
  case Nil
  then show ?case by simp
next
  case (Cons r rs)
  show ?case
  proof (cases "convert_row lib h output_dir r st")
    case (Inl e)
    then show ?thesis using Cons.prems by simp
  next
    case (Inr st')
    have step: "successful_conversions st' = length (created_files st')"
      "\<forall>f \<in> set (created_files st'). path_join output_dir f \<in> dom (files st')"
      "successful_conversions st' + failed_conversions st'
         = successful_conversions st + failed_conversions st + 1"
      using convert_row_inv [OF Inr Cons.prems] by blast+
    show ?thesis using Cons.IH [OF step(1,2)] step(3) Inr by auto
  qed
qed

lemma batch_failed_Inr:
  "batch_failed h e st = Inr r \<Longrightarrow> ret r = (0, 1) \<and> at_return r = st \<and> aborted r"
  by (auto simp: batch_failed_def split: if_splits)

lemma convert_result_cases:
  assumes "convert_csv_to_markdown lib h csv_file output_dir fs = Inr r"
  shows "(aborted r \<and> ret r = (0, 1)) \<or>
    (\<not> aborted r \<and>
      (\<exists>rows. csv_file = Reader rows None \<and>
         convert_rows lib h output_dir rows
           \<lparr>successful_conversions = 0, failed_conversions = 0, created_files = [], files = fs\<rparr>
         = (at_return r, None) \<and>
         ret r = (successful_conversions (at_return r), failed_conversions (at_return r))))"
proof (cases csv_file)
  case (CannotOpen e)
  then show ?thesis using assms
    by (auto simp: convert_csv_to_markdown_def dest: batch_failed_Inr split: if_splits)
next
  case (Reader rows err)
  show ?thesis
  proof (cases err)
    case (Some e)
    then show ?thesis using assms Reader
      by (auto simp: convert_csv_to_markdown_def dest: batch_failed_Inr split: if_splits)
  next
    case None
    then show ?thesis using assms Reader
      by (auto simp: convert_csv_to_markdown_def Let_def dest: batch_failed_Inr
          split: if_splits prod.splits option.splits)
  qed
qed

text \<open>
  Claim C2, as the code has it. Whenever the function returns, the value is a pair of
  numbers: (0, 1) after a batch-level failure, and otherwise the number of files written
  and the number of rows that failed, which add up to the number of rows. The names of
  the files written are kept in the local list \<open>created_files\<close> (one per success, each
  naming a file that exists afterwards), which is not part of the returned value.
\<close>

theorem return_value_is_pair_of_counts:
  assumes "convert_csv_to_markdown lib h csv_file output_dir fs = Inr r"
  shows "(aborted r \<longrightarrow> ret r = (0, 1)) \<and>
    (\<not> aborted r \<longrightarrow>
       ret r = (successful_conversions (at_return r), failed_conversions (at_return r)) \<and>
       fst (ret r) = length (created_files (at_return r)) \<and>
       (\<exists>rows. csv_file = Reader rows None \<and> fst (ret r) + snd (ret r) = length rows) \<and>
       (\<forall>f \<in> set (created_files (at_return r)).
          path_join output_dir f \<in> dom (files (at_return r))))"
proof -
  consider "aborted r" "ret r = (0, 1)"
    | rows where "\<not> aborted r" "csv_file = Reader rows None"
        "convert_rows lib h output_dir rows
           \<lparr>successful_conversions = 0, failed_conversions = 0, created_files = [], files = fs\<rparr>
         = (at_return r, None)"
        "ret r = (successful_conversions (at_return r), failed_conversions (at_return r))"
    using convert_result_cases [OF assms] by blast
  then show ?thesis
  proof cases
    case 1
    then show ?thesis by simp
  next
    case 2
    let ?init = "\<lparr>successful_conversions = 0, failed_conversions = 0, created_files = [],
                   files = fs\<rparr>"
    have inv: "successful_conversions (at_return r) = length (created_files (at_return r))"
      "\<forall>f \<in> set (created_files (at_return r)). path_join output_dir f \<in> dom (files (at_return r))"
      "successful_conversions (at_return r) + failed_conversions (at_return r) = length rows"
      using convert_rows_inv [where st = ?init and output_dir = output_dir and lib = lib
          and h = h and rs = rows] 2(3) by simp_all
    show ?thesis using 2 inv by simp
  qed
qed

theorem return_value_is_pair_of_counts_witness:
  "convert_csv_to_markdown example_lib example_host (Reader [row_link, row_short] None)
       (ustr ''output'') Map.empty
     = Inr \<lparr>ret = (1, 1),
            at_return = \<lparr>successful_conversions = 1, failed_conversions = 1,
              created_files = [ustr ''A.md''],
              files = [ustr ''output/A.md'' \<mapsto> join [10] (content_lines example_lib row_link)]\<rparr>,
            aborted = False\<rparr> \<and>
   convert_csv_to_markdown example_lib example_host (CannotOpen OSError)
       (ustr ''output'') Map.empty
     = Inr \<lparr>ret = (0, 1),
            at_return = \<lparr>successful_conversions = 0, failed_conversions = 0,
              created_files = [], files = Map.empty\<rparr>,
            aborted = True\<rparr>"
proof -
  have a: "convert_csv_to_markdown example_lib example_host (Reader [row_link, row_short] None)
       (ustr ''output'') Map.empty
     = Inr \<lparr>ret = (1, 1),
            at_return = \<lparr>successful_conversions = 1, failed_conversions = 1,
              created_files = [ustr ''A.md''],
              files = [ustr ''output/A.md'' \<mapsto> join [10] (content_lines example_lib row_link)]\<rparr>,
            aborted = False\<rparr>"
    by (simp add: eval_simps doc_simps run_simps row_link_def row_short_def)
  have b: "convert_csv_to_markdown example_lib example_host (CannotOpen OSError)
       (ustr ''output'') Map.empty
     = Inr \<lparr>ret = (0, 1),
            at_return = \<lparr>successful_conversions = 0, failed_conversions = 0,
              created_files = [], files = Map.empty\<rparr>,
            aborted = True\<rparr>"
    by (simp add: run_simps)
  show ?thesis
    using a b return_value_is_pair_of_counts [OF a] return_value_is_pair_of_counts [OF b]
    by simp
qed

theorem return_value_omits_file_names:
  "map_sum id ret (convert_csv_to_markdown example_lib example_host (Reader [row_link] None)
       (ustr ''output'') Map.empty) = Inr (1, 0) \<and>
   map_sum id ret (convert_csv_to_markdown example_lib example_host (Reader [row_b] None)
       (ustr ''output'') Map.empty) = Inr (1, 0) \<and>
   map_sum id (created_files \<circ> at_return)
     (convert_csv_to_markdown example_lib example_host (Reader [row_link] None)
       (ustr ''output'') Map.empty) = Inr [ustr ''A.md''] \<and>
   map_sum id (created_files \<circ> at_return)
     (convert_csv_to_markdown example_lib example_host (Reader [row_b] None)
       (ustr ''output'') Map.empty) = Inr [ustr ''B.md''] \<and>
   ustr ''A.md'' \<noteq> ustr ''B.md''"
  by (simp add: eval_simps doc_simps run_simps row_link_def row_b_def)

text \<open>
  When the file cannot be opened or the reader raises, nothing is converted, not even
  the rows that come before the error: the rows are counted in a first pass, inside the
  \<open>try\<close>. The function then returns (0, 1) with the files as they were.
\<close>

lemma unreadable_source_writes_nothing:
  assumes "convert_csv_to_markdown lib h csv_file output_dir fs = Inr r"
    and "csv_file = CannotOpen e \<or> csv_file = Reader rows (Some e)"
  shows "aborted r \<and> ret r = (0, 1) \<and>
    at_return r = \<lparr>successful_conversions = 0, failed_conversions = 0, created_files = [],
                    files = fs\<rparr>"
  using assms
  by (auto simp: convert_csv_to_markdown_def batch_failed_def split: if_splits)

text \<open>
  On a host where every message can be printed, the loop is never left by an exception,
  and a batch-level failure is always of that kind.
\<close>

lemma convert_rows_completes:
  "\<forall>m. can_print h m \<Longrightarrow> snd (convert_rows lib h output_dir rs st) = None"
proof (induction rs arbitrary: st)
  case Nil
  show ?case by simp
next
  case (Cons r rs)
  have "\<exists>st'. convert_row lib h output_dir r st = Inr st'"
    using Cons.prems
    by (auto simp: convert_row_def row_failed_def Let_def
        split: option.splits pyval.splits sum.splits)
  then show ?case using Cons by auto
qed

lemma batch_failure_with_working_console:
  assumes "convert_csv_to_markdown lib h csv_file output_dir fs = Inr r" and "aborted r"
    and "\<forall>m. can_print h m"
  shows "ret r = (0, 1) \<and> files (at_return r) = fs \<and> created_files (at_return r) = [] \<and>
    successful_conversions (at_return r) = 0 \<and> failed_conversions (at_return r) = 0 \<and>
    ((\<exists>e. csv_file = CannotOpen e) \<or> (\<exists>rows e. csv_file = Reader rows (Some e)))"
proof (cases csv_file)
  case (CannotOpen e)
  then show ?thesis using unreadable_source_writes_nothing [OF assms(1), of e] by simp
next
  case (Reader rows err)
  show ?thesis
  proof (cases err)
    case (Some e)
    then show ?thesis using Reader unreadable_source_writes_nothing [OF assms(1), of e rows]
      by simp
  next
    case None
    have "snd (convert_rows lib h output_dir rows
        \<lparr>successful_conversions = 0, failed_conversions = 0, created_files = [], files = fs\<rparr>)
        = None"
      using assms(3) by (rule convert_rows_completes)
    then have "\<not> aborted r" using assms(1,3) Reader None
      by (auto simp: convert_csv_to_markdown_def Let_def split: if_splits prod.splits option.splits)
    then show ?thesis using assms(2) by simp
  qed
qed

text \<open>
  Claim C4. On a Latin-1 console, with a first row that converts and a second, short
  row whose title has CJK characters: the second row fails, the handler's \<open>print\<close> of
  its title raises, and the exception reaches the outer \<open>except Exception\<close>. The
  function reports a batch-level failure and returns (0, 1), although \<open>A.md\<close> has been
  written and the first row counted as a success.
\<close>

theorem print_failure_reported_as_batch_failure:
  "convert_csv_to_markdown example_lib latin1_host (Reader [row_link, row_cjk_short] None)
       (ustr ''output'') Map.empty
     = Inr \<lparr>ret = (0, 1),
            at_return = \<lparr>successful_conversions = 1, failed_conversions = 0,
              created_files = [ustr ''A.md''],
              files = [ustr ''output/A.md'' \<mapsto> join [10] (content_lines example_lib row_link)]\<rparr>,
            aborted = True\<rparr>"
  by (simp add: eval_simps doc_simps run_simps row_link_def row_cjk_short_def)


end
